theory Spec2Isabelle
  imports Main
begin

section \<open>The dialog foundation of \<^verbatim>\<open>packages/mdc-dialog/foundation.js\<close>\<close>

text \<open>
  \<^verbatim>\<open>MDCDialogFoundation\<close> owns two private fields (\<^verbatim>\<open>isOpen_\<close>, \<^verbatim>\<open>animationTimer_\<close>) and three
  handler closures made once by the constructor. Everything else it does is a call to the
  outside: to the injected adapter, to \<^verbatim>\<open>setTimeout\<close>/\<^verbatim>\<open>clearTimeout\<close> and to
  \<^verbatim>\<open>requestAnimationFrame\<close>. The model threads one state record through every method; the
  record holds the two fields, the handler references, and the environment: the table of
  pending timers, the queue of pending animation-frame callbacks, the clock, and the trace of
  every outside call in the order it was made. A private name of the source ends in an
  underscore; here it ends in a prime (\<open>isOpen'\<close> is the field \<^verbatim>\<open>isOpen_\<close>).
\<close>

subsection \<open>Values\<close>

text \<open>
  The action of \<^verbatim>\<open>close(action)\<close> and the result of \<^verbatim>\<open>getActionFromEvent\<close> are
  \<^verbatim>\<open>?string\<close> or \<^verbatim>\<open>undefined\<close>. \<open>truthy\<close> is the test JavaScript applies in
  \<^verbatim>\<open>if (action)\<close>: \<^verbatim>\<open>undefined\<close>, \<^verbatim>\<open>null\<close> and the empty string are falsy.
\<close>

datatype js_action = Undefined | Null | Str string

fun truthy :: "js_action \<Rightarrow> bool" where
  "truthy Undefined = False"
| "truthy Null = False"
| "truthy (Str s) = (s \<noteq> [])"

text \<open>The three closures of the constructor, named after the field that holds them.\<close>

datatype handler = DialogClickHandler | WindowResizeHandler | DocumentKeyDownHandler

text \<open>
  The closures handed to \<^verbatim>\<open>setTimeout\<close> by \<^verbatim>\<open>open\<close> and by \<^verbatim>\<open>close\<close> (which captures
  \<^verbatim>\<open>action\<close>), and the one handed to \<^verbatim>\<open>requestAnimationFrame\<close> by \<^verbatim>\<open>layout\<close>.
\<close>

datatype timer_callback = OpenTimerCallback | CloseTimerCallback js_action

datatype frame_callback = LayoutFrameCallback

text \<open>
  A keyboard event, as far as \<^verbatim>\<open>handleDocumentKeyDown_\<close> reads it. \<open>None\<close> is a property
  that is \<^verbatim>\<open>undefined\<close> on the event (\<^verbatim>\<open>key\<close> on old browsers).
\<close>

record keyboard_event =
  key :: "string option"
  keyCode :: "int option"

text \<open>
  Every call the foundation makes to the outside. \<open>'e\<close> is the type of click events, which
  the foundation only passes on to the adapter.
\<close>

datatype 'e call =
    AddClass string
  | RemoveClass string
  | AddBodyClass string
  | RemoveBodyClass string
  | RegisterInteractionHandler string handler
  | DeregisterInteractionHandler string handler
  | RegisterDocumentHandler string handler
  | DeregisterDocumentHandler string handler
  | RegisterWindowHandler string handler
  | DeregisterWindowHandler string handler
  | ComputeBoundingRect
  | TrapFocus
  | ReleaseFocus
  | IsContentScrollable
  | AreButtonsStacked
  | GetActionFromEvent 'e
  | NotifyOpening
  | NotifyOpened
  | NotifyClosing js_action
  | NotifyClosed js_action
  | SetTimeout timer_callback nat
  | ClearTimeout nat
  | RequestAnimationFrame frame_callback

text \<open>
  A trace entry pairs a call with the value \<^verbatim>\<open>isOpen()\<close> has while the call is made: it is
  what the callee sees if it asks the foundation at that moment.
\<close>

type_synonym 'e entry = "bool \<times> 'e call"

subsection \<open>Constants and adapter\<close>

text \<open>
  \<^verbatim>\<open>./constants\<close> is imported by the foundation; its values are parameters here.
\<close>

record constants =
  OPENING :: string
  CLOSING :: string
  OPEN :: string
  SCROLL_LOCK :: string
  STACKED :: string
  SCROLLABLE :: string
  DIALOG_ANIMATION_OPEN_TIME_MS :: nat
  DIALOG_ANIMATION_CLOSE_TIME_MS :: nat
  DESTROY_ACTION :: string
  ESCAPE_ACTION :: string

text \<open>
  The adapter methods whose result the foundation reads. Their answer may depend on
  everything the outside has been told so far (the trace), as a measurement of the page
  depends on the classes set on it.
\<close>

record 'e adapter =
  areButtonsStacked :: "'e entry list \<Rightarrow> bool"
  isContentScrollable :: "'e entry list \<Rightarrow> bool"
  getActionFromEvent :: "'e entry list \<Rightarrow> 'e \<Rightarrow> js_action"

subsection \<open>State\<close>

record timer =
  timer_id :: nat
  due :: nat
  callback :: timer_callback

record 'e state =
  isOpen' :: bool
  animationTimer' :: nat
  dialogClickHandler' :: handler
  windowResizeHandler' :: handler
  documentKeyDownHandler' :: handler
  trace :: "'e entry list"
  now :: nat
  nextTimerId :: nat
  timers :: "timer list"
  frames :: "frame_callback list"

text \<open>
  The constructor: closed, \<^verbatim>\<open>animationTimer_ = 0\<close>, the three closures. Timer handles
  given out by \<^verbatim>\<open>setTimeout\<close> start at 1, so the handle 0 names no timer.
\<close>

definition constructor :: "'e state" where
  "constructor =
     \<lparr> isOpen' = False,
       animationTimer' = 0,
       dialogClickHandler' = DialogClickHandler,
       windowResizeHandler' = WindowResizeHandler,
       documentKeyDownHandler' = DocumentKeyDownHandler,
       trace = [],
       now = 0,
       nextTimerId = 1,
       timers = [],
       frames = [] \<rparr>"

subsection \<open>The environment\<close>

text \<open>An outside call is appended to the trace, with the flag as it is at that moment.\<close>

definition effect :: "'e call \<Rightarrow> 'e state \<Rightarrow> 'e state" where
  "effect c s = s\<lparr>trace := trace s @ [(isOpen' s, c)]\<rparr>"

text \<open>
  \<^verbatim>\<open>setTimeout(cb, ms)\<close> adds a timer due \<open>ms\<close> after the current time and returns its
  fresh handle; \<^verbatim>\<open>clearTimeout(h)\<close> drops the timer with handle \<open>h\<close>, if there is one.
\<close>

definition setTimeout :: "timer_callback \<Rightarrow> nat \<Rightarrow> 'e state \<Rightarrow> nat \<times> 'e state" where
  "setTimeout cb ms s =
     (nextTimerId s,
      effect (SetTimeout cb ms)
        (s\<lparr>timers := timers s @ [\<lparr>timer_id = nextTimerId s, due = now s + ms, callback = cb\<rparr>],
           nextTimerId := Suc (nextTimerId s)\<rparr>))"

definition clearTimeout :: "nat \<Rightarrow> 'e state \<Rightarrow> 'e state" where
  "clearTimeout h s =
     effect (ClearTimeout h) (s\<lparr>timers := filter (\<lambda>t. timer_id t \<noteq> h) (timers s)\<rparr>)"

definition requestAnimationFrame :: "frame_callback \<Rightarrow> 'e state \<Rightarrow> 'e state" where
  "requestAnimationFrame cb s = effect (RequestAnimationFrame cb) (s\<lparr>frames := frames s @ [cb]\<rparr>)"

subsection \<open>The foundation's methods\<close>

text \<open>
  Each method is the sequence of its statements, one \<open>let\<close> per statement, in the order of
  the source. \<^verbatim>\<open>open\<close> is a word of the proof language, so the method is \<open>open_dialog\<close>.
  \<^verbatim>\<open>close(action = undefined)\<close> leaves every argument as it is, \<^verbatim>\<open>undefined\<close> included.
  \<^verbatim>\<open>handleDialogClick_\<close> reads \<^verbatim>\<open>target\<close> off the event and never uses it; the model
  leaves that read out. The adapter is the one given to the constructor; a method it lacks
  is the no-op of \<^verbatim>\<open>defaultAdapter\<close>, whose \<^verbatim>\<open>undefined\<close> result is falsy.
\<close>

definition handleAnimationTimerEnd' :: "constants \<Rightarrow> 'e state \<Rightarrow> 'e state" where
  "handleAnimationTimerEnd' k s =
     effect (RemoveClass (CLOSING k)) (effect (RemoveClass (OPENING k)) s)"

definition layout :: "'e state \<Rightarrow> 'e state" where
  "layout s = requestAnimationFrame LayoutFrameCallback s"

definition open_dialog :: "constants \<Rightarrow> 'e state \<Rightarrow> 'e state" where
  "open_dialog k s0 =
     (let s = s0\<lparr>isOpen' := True\<rparr>;
          s = effect (RegisterInteractionHandler ''click'' (dialogClickHandler' s)) s;
          s = effect (RegisterDocumentHandler ''keydown'' (documentKeyDownHandler' s)) s;
          s = effect (RegisterWindowHandler ''resize'' (windowResizeHandler' s)) s;
          s = effect (RegisterWindowHandler ''orientationchange'' (windowResizeHandler' s)) s;
          s = effect (AddClass (OPENING k)) s;
          s = effect ComputeBoundingRect s;
          s = effect (AddClass (OPEN k)) s;
          s = effect (AddBodyClass (SCROLL_LOCK k)) s;
          s = effect NotifyOpening s;
          s = layout s;
          s = clearTimeout (animationTimer' s) s;
          (h, s) = setTimeout OpenTimerCallback (DIALOG_ANIMATION_OPEN_TIME_MS k) s
      in s\<lparr>animationTimer' := h\<rparr>)"

definition close :: "constants \<Rightarrow> js_action \<Rightarrow> 'e state \<Rightarrow> 'e state" where
  "close k action s0 =
     (let s = s0\<lparr>isOpen' := False\<rparr>;
          s = effect (DeregisterInteractionHandler ''click'' (dialogClickHandler' s)) s;
          s = effect (DeregisterDocumentHandler ''keydown'' (documentKeyDownHandler' s)) s;
          s = effect (DeregisterWindowHandler ''resize'' (windowResizeHandler' s)) s;
          s = effect (DeregisterWindowHandler ''orientationchange'' (windowResizeHandler' s)) s;
          s = effect ReleaseFocus s;
          s = effect (AddClass (CLOSING k)) s;
          s = effect (RemoveClass (OPEN k)) s;
          s = effect (RemoveBodyClass (SCROLL_LOCK k)) s;
          s = effect (NotifyClosing action) s;
          s = clearTimeout (animationTimer' s) s;
          (h, s) = setTimeout (CloseTimerCallback action) (DIALOG_ANIMATION_CLOSE_TIME_MS k) s
      in s\<lparr>animationTimer' := h\<rparr>)"

definition destroy :: "constants \<Rightarrow> 'e state \<Rightarrow> 'e state" where
  "destroy k s0 =
     (let s = (if isOpen' s0 then close k (Str (DESTROY_ACTION k)) s0 else s0);
          s = handleAnimationTimerEnd' k s
      in clearTimeout (animationTimer' s) s)"

definition isOpen :: "'e state \<Rightarrow> bool" where
  "isOpen s = isOpen' s"

definition detectStackedButtons' :: "constants \<Rightarrow> 'e adapter \<Rightarrow> 'e state \<Rightarrow> 'e state" where
  "detectStackedButtons' k ad s0 =
     (let s = effect (RemoveClass (STACKED k)) s0;
          stacked = areButtonsStacked ad (trace s);
          s = effect AreButtonsStacked s
      in if stacked then effect (AddClass (STACKED k)) s else s)"

definition detectScrollableContent' :: "constants \<Rightarrow> 'e adapter \<Rightarrow> 'e state \<Rightarrow> 'e state" where
  "detectScrollableContent' k ad s0 =
     (let s = effect (RemoveClass (SCROLLABLE k)) s0;
          scrollable = isContentScrollable ad (trace s);
          s = effect IsContentScrollable s
      in if scrollable then effect (AddClass (SCROLLABLE k)) s else s)"

definition handleDialogClick' :: "constants \<Rightarrow> 'e adapter \<Rightarrow> 'e \<Rightarrow> 'e state \<Rightarrow> 'e state" where
  "handleDialogClick' k ad evt s0 =
     (let action = getActionFromEvent ad (trace s0) evt;
          s = effect (GetActionFromEvent evt) s0
      in if truthy action then close k action s else s)"

definition handleWindowResize' :: "'e state \<Rightarrow> 'e state" where
  "handleWindowResize' s = layout s"

definition handleDocumentKeyDown' :: "constants \<Rightarrow> keyboard_event \<Rightarrow> 'e state \<Rightarrow> 'e state" where
  "handleDocumentKeyDown' k evt s =
     (if key evt = Some ''Escape'' \<or> keyCode evt = Some 27
      then close k (Str (ESCAPE_ACTION k)) s else s)"

subsection \<open>Running the deferred callbacks\<close>

text \<open>The bodies of the two timer closures and of the animation-frame closure.\<close>

fun run_timer_callback :: "constants \<Rightarrow> timer_callback \<Rightarrow> 'e state \<Rightarrow> 'e state" where
  "run_timer_callback k OpenTimerCallback s =
     effect NotifyOpened (effect TrapFocus (handleAnimationTimerEnd' k s))"
| "run_timer_callback k (CloseTimerCallback action) s =
     effect (NotifyClosed action) (handleAnimationTimerEnd' k s)"

fun run_frame_callback :: "constants \<Rightarrow> 'e adapter \<Rightarrow> frame_callback \<Rightarrow> 'e state \<Rightarrow> 'e state" where
  "run_frame_callback k ad LayoutFrameCallback s =
     detectScrollableContent' k ad (detectStackedButtons' k ad s)"

subsection \<open>The event loop\<close>

text \<open>
  The host runs one callback at a time. The pending timer that is due first (the one
  scheduled first, among equals) is \<open>next_timer\<close>; \<open>run_timer\<close> fires it once its time has
  come and does nothing before. \<open>tick\<close> lets time pass without running anything, so a timer
  may fire late. \<open>run_frame\<close> is one animation frame: it runs the callbacks queued up to then.
\<close>

fun next_timer :: "timer list \<Rightarrow> timer option" where
  "next_timer [] = None"
| "next_timer (t # ts) =
     (case next_timer ts of
        None \<Rightarrow> Some t
      | Some u \<Rightarrow> if due u < due t then Some u else Some t)"

definition run_timer :: "constants \<Rightarrow> 'e state \<Rightarrow> 'e state" where
  "run_timer k s =
     (case next_timer (timers s) of
        None \<Rightarrow> s
      | Some t \<Rightarrow>
          if due t \<le> now s
          then run_timer_callback k (callback t) (s\<lparr>timers := remove1 t (timers s)\<rparr>)
          else s)"

definition tick :: "nat \<Rightarrow> 'e state \<Rightarrow> 'e state" where
  "tick d s = s\<lparr>now := now s + d\<rparr>"

definition run_frame :: "constants \<Rightarrow> 'e adapter \<Rightarrow> 'e state \<Rightarrow> 'e state" where
  "run_frame k ad s =
     foldl (\<lambda>s' cb. run_frame_callback k ad cb s') (s\<lparr>frames := []\<rparr>) (frames s)"

text \<open>
  \<open>advance k d\<close> lets \<open>d\<close> milliseconds pass with every timer firing on time: the timers due
  within the period fire in order, each at its due time, and the clock ends \<open>d\<close> later.
\<close>

function advance_to :: "constants \<Rightarrow> nat \<Rightarrow> 'e state \<Rightarrow> 'e state" where
  "advance_to k t s =
     (case next_timer (timers s) of
        None \<Rightarrow> s\<lparr>now := max (now s) t\<rparr>
      | Some tm \<Rightarrow>
          if due tm \<le> t
          then advance_to k t (run_timer k (s\<lparr>now := max (now s) (due tm)\<rparr>))
          else s\<lparr>now := max (now s) t\<rparr>)"
  by pat_completeness auto
termination
proof (relation "measure (\<lambda>(k, t, s). length (timers s))")
  show "wf (measure (\<lambda>(k :: constants, t :: nat, s :: 'e state). length (timers s)))"
    by simp
next
  fix k :: constants and t :: nat and s :: "'e state" and tm :: timer
  assume nt: "next_timer (timers s) = Some tm" and "due tm \<le> t"
  have mem: "u \<in> set ts" if "next_timer ts = Some u" for ts u
    using that by (induction ts arbitrary: u) (auto split: option.splits if_splits)
  have keep: "timers (run_timer_callback k cb s') = timers s'" for cb and s' :: "'e state"
    by (cases cb) (simp_all add: handleAnimationTimerEnd'_def effect_def)
  have "tm \<in> set (timers s)"
    using nt by (rule mem)
  then have "length (remove1 tm (timers s)) < length (timers s)"
    by (simp add: length_remove1) (cases "timers s", auto)
  then have "length (timers (run_timer k (s\<lparr>now := max (now s) (due tm)\<rparr>))) < length (timers s)"
    using nt by (simp add: run_timer_def keep)
  then show "((k, t, run_timer k (s\<lparr>now := max (now s) (due tm)\<rparr>)), (k, t, s))
      \<in> measure (\<lambda>(k, t, s). length (timers s))"
    by simp
qed

definition advance :: "constants \<Rightarrow> nat \<Rightarrow> 'e state \<Rightarrow> 'e state" where
  "advance k d s = advance_to k (now s + d) s"

text \<open>
  What can happen to a foundation: a call of a public method, an event delivered to one of
  its handlers, or a turn of the event loop. \<open>run\<close> performs a sequence of them, so the
  states \<open>run k ad steps constructor\<close> are the reachable ones.
\<close>

datatype 'e step =
    Open
  | Close js_action
  | Destroy
  | Layout
  | Click 'e
  | Resize
  | KeyDown keyboard_event
  | Frame
  | Tick nat
  | RunTimer

fun do_step :: "constants \<Rightarrow> 'e adapter \<Rightarrow> 'e state \<Rightarrow> 'e step \<Rightarrow> 'e state" where
  "do_step k ad s Open = open_dialog k s"
| "do_step k ad s (Close action) = close k action s"
| "do_step k ad s Destroy = destroy k s"
| "do_step k ad s Layout = layout s"
| "do_step k ad s (Click evt) = handleDialogClick' k ad evt s"
| "do_step k ad s Resize = handleWindowResize' s"
| "do_step k ad s (KeyDown evt) = handleDocumentKeyDown' k evt s"
| "do_step k ad s Frame = run_frame k ad s"
| "do_step k ad s (Tick d) = tick d s"
| "do_step k ad s RunTimer = run_timer k s"

definition run :: "constants \<Rightarrow> 'e adapter \<Rightarrow> 'e step list \<Rightarrow> 'e state \<Rightarrow> 'e state" where
  "run k ad steps s = foldl (do_step k ad) s steps"

subsection \<open>Reading a trace\<close>

text \<open>
  The calls of a trace, and the part of it that a state \<open>s'\<close> has added to the trace of an
  earlier state \<open>s\<close>.
\<close>

definition calls :: "'e entry list \<Rightarrow> 'e call list" where
  "calls es = map snd es"

definition added :: "'e state \<Rightarrow> 'e state \<Rightarrow> 'e entry list" where
  "added s s' = drop (length (trace s)) (trace s')"

text \<open>
  A transition is begun by \<^verbatim>\<open>notifyOpening\<close> or \<^verbatim>\<open>notifyClosing(action)\<close> and completed by
  \<^verbatim>\<open>notifyOpened\<close> or \<^verbatim>\<open>notifyClosed(action)\<close>. \<open>track\<close> follows the calls and keeps the
  transition that is begun and not completed; a completion is \<open>admissible\<close> when that
  transition is its own. A list of calls is \<open>delivered_once\<close> when every completion in it is
  admissible: it completes the latest transition, which no call has completed before.
\<close>

datatype transition = Opening | Closing js_action

fun track :: "transition option \<Rightarrow> 'e call \<Rightarrow> transition option" where
  "track p NotifyOpening = Some Opening"
| "track p (NotifyClosing action) = Some (Closing action)"
| "track p NotifyOpened = None"
| "track p (NotifyClosed action) = None"
| "track p c = p"

fun admissible :: "transition option \<Rightarrow> 'e call \<Rightarrow> bool" where
  "admissible p NotifyOpened = (p = Some Opening)"
| "admissible p (NotifyClosed action) = (p = Some (Closing action))"
| "admissible p c = True"

fun delivered_once :: "transition option \<Rightarrow> 'e call list \<Rightarrow> bool" where
  "delivered_once p [] = True"
| "delivered_once p (c # cs) = (admissible p c \<and> delivered_once (track p c) cs)"

definition in_progress :: "'e call list \<Rightarrow> transition option" where
  "in_progress cs = foldl track None cs"

fun transition_of :: "timer_callback \<Rightarrow> transition" where
  "transition_of OpenTimerCallback = Opening"
| "transition_of (CloseTimerCallback action) = Closing action"

text \<open>
  The classes a test adapter holds on the dialog root after a list of calls: \<^verbatim>\<open>addClass\<close>
  puts a class in, \<^verbatim>\<open>removeClass\<close> takes it out.
\<close>

fun apply_class :: "string set \<Rightarrow> 'e call \<Rightarrow> string set" where
  "apply_class S (AddClass c) = insert c S"
| "apply_class S (RemoveClass c) = S - {c}"
| "apply_class S other = S"

definition classes :: "'e call list \<Rightarrow> string set" where
  "classes cs = foldl apply_class {} cs"

text \<open>
  The calls that report a transition to the adapter, and the steps that are turns of the
  event loop rather than calls or events from the page.
\<close>

fun notification :: "'e call \<Rightarrow> bool" where
  "notification NotifyOpening = True"
| "notification NotifyOpened = True"
| "notification (NotifyClosing action) = True"
| "notification (NotifyClosed action) = True"
| "notification c = False"


text \<open>
  The pending timer, if there is one, is the one \<^verbatim>\<open>animationTimer_\<close> names, and it belongs to
  the transition in progress.
\<close>

definition timer_tracked :: "'e state \<Rightarrow> bool" where
  "timer_tracked s =
     (case timers s of
        [] \<Rightarrow> True
      | [t] \<Rightarrow> timer_id t = animationTimer' s
               \<and> in_progress (calls (trace s)) = Some (transition_of (callback t))
      | _ \<Rightarrow> False)"

text \<open>A test adapter that gives the same answers whatever it has been told.\<close>

definition stub_adapter :: "bool \<Rightarrow> bool \<Rightarrow> js_action \<Rightarrow> 'e adapter" where
  "stub_adapter stacked scrollable action =
     \<lparr> areButtonsStacked = (\<lambda>_. stacked),
       isContentScrollable = (\<lambda>_. scrollable),
       getActionFromEvent = (\<lambda>_ _. action) \<rparr>"

text \<open>Values for the constants, for running the model on examples.\<close>

definition example_constants :: constants where
  "example_constants =
     \<lparr> OPENING = ''mdc-dialog--opening'',
       CLOSING = ''mdc-dialog--closing'',
       OPEN = ''mdc-dialog--open'',
       SCROLL_LOCK = ''mdc-dialog-scroll-lock'',
       STACKED = ''mdc-dialog--stacked'',
       SCROLLABLE = ''mdc-dialog--scrollable'',
       DIALOG_ANIMATION_OPEN_TIME_MS = 150,
       DIALOG_ANIMATION_CLOSE_TIME_MS = 75,
       DESTROY_ACTION = ''destroy'',
       ESCAPE_ACTION = ''close'' \<rparr>"

text \<open>
  \<open>extends_by Q s s'\<close>: the trace of \<open>s'\<close> is the trace of \<open>s\<close> with calls added that all
  satisfy \<open>Q\<close>. \<open>completion\<close> are the two calls that report a finished transition.
\<close>

definition extends_by :: "('e call \<Rightarrow> bool) \<Rightarrow> 'e state \<Rightarrow> 'e state \<Rightarrow> bool" where
  "extends_by Q s s' = (trace s' = trace s @ added s s' \<and> list_all Q (calls (added s s')))"

fun completion :: "'e call \<Rightarrow> bool" where
  "completion NotifyOpened = True"
| "completion (NotifyClosed action) = True"
| "completion c = False"

text \<open>What holds in every reachable state, as shown below.\<close>

definition dialog_inv :: "'e state \<Rightarrow> bool" where
  "dialog_inv s = (timer_tracked s \<and> delivered_once None (calls (trace s)))"

section \<open>Properties\<close>

subsection \<open>The methods, written out\<close>

lemmas prim_defs = effect_def setTimeout_def clearTimeout_def requestAnimationFrame_def
  handleAnimationTimerEnd'_def layout_def

lemma open_dialog_eq:
  "open_dialog k s = s\<lparr>isOpen' := True,
   animationTimer' := nextTimerId s,
   trace := trace s @ map (Pair True)
   [RegisterInteractionHandler ''click'' (dialogClickHandler' s),
    RegisterDocumentHandler ''keydown'' (documentKeyDownHandler' s),
    RegisterWindowHandler ''resize'' (windowResizeHandler' s),
    RegisterWindowHandler ''orientationchange'' (windowResizeHandler' s),
    AddClass (OPENING k), ComputeBoundingRect, AddClass (OPEN k), AddBodyClass (SCROLL_LOCK k),
    NotifyOpening, RequestAnimationFrame LayoutFrameCallback, ClearTimeout (animationTimer' s),
    SetTimeout OpenTimerCallback (DIALOG_ANIMATION_OPEN_TIME_MS k)],
   nextTimerId := Suc (nextTimerId s),
   timers := filter (\<lambda>t. timer_id t \<noteq> animationTimer' s) (timers s) @
     [\<lparr>timer_id = nextTimerId s, due = now s + DIALOG_ANIMATION_OPEN_TIME_MS k,
       callback = OpenTimerCallback\<rparr>],
   frames := frames s @ [LayoutFrameCallback]\<rparr>"
  by (simp add: open_dialog_def prim_defs Let_def)

lemma close_eq:
  "close k a s = s\<lparr>isOpen' := False,
   animationTimer' := nextTimerId s,
   trace := trace s @ map (Pair False)
   [DeregisterInteractionHandler ''click'' (dialogClickHandler' s),
    DeregisterDocumentHandler ''keydown'' (documentKeyDownHandler' s),
    DeregisterWindowHandler ''resize'' (windowResizeHandler' s),
    DeregisterWindowHandler ''orientationchange'' (windowResizeHandler' s),
    ReleaseFocus, AddClass (CLOSING k), RemoveClass (OPEN k), RemoveBodyClass (SCROLL_LOCK k),
    NotifyClosing a, ClearTimeout (animationTimer' s),
    SetTimeout (CloseTimerCallback a) (DIALOG_ANIMATION_CLOSE_TIME_MS k)],
   nextTimerId := Suc (nextTimerId s),
   timers := filter (\<lambda>t. timer_id t \<noteq> animationTimer' s) (timers s) @
     [\<lparr>timer_id = nextTimerId s, due = now s + DIALOG_ANIMATION_CLOSE_TIME_MS k,
       callback = CloseTimerCallback a\<rparr>]\<rparr>"
  by (simp add: close_def prim_defs Let_def)

subsection \<open>Completions in a trace\<close>

lemma delivered_once_append:
  "delivered_once p (xs @ ys) = (delivered_once p xs \<and> delivered_once (foldl track p xs) ys)"
  by (induction xs arbitrary: p) auto

lemma quiet_track: "\<not> notification c \<Longrightarrow> track p c = p"
  by (cases c) auto

lemma quiet_admissible: "\<not> notification c \<Longrightarrow> admissible p c"
  by (cases c) auto

lemma quiet_foldl: "filter notification cs = [] \<Longrightarrow> foldl track p cs = p"
  by (induction cs arbitrary: p) (auto simp: quiet_track split: if_splits)

lemma quiet_delivered: "filter notification cs = [] \<Longrightarrow> delivered_once p cs"
  by (induction cs arbitrary: p) (auto simp: quiet_track quiet_admissible split: if_splits)

subsection \<open>The invariant\<close>

text \<open>
  \<open>dialog_inv\<close> holds after the constructor and every step keeps it. What makes it go
  through is that \<^verbatim>\<open>open\<close>, \<^verbatim>\<open>close\<close> and \<^verbatim>\<open>destroy\<close> clear the timer that
  \<^verbatim>\<open>animationTimer_\<close> names, and that is the pending one.
\<close>

lemma tracked_cases:
  "timer_tracked s \<Longrightarrow>
     timers s = [] \<or>
     (\<exists>t. timers s = [t] \<and> timer_id t = animationTimer' s
        \<and> in_progress (calls (trace s)) = Some (transition_of (callback t)))"
  by (auto simp: timer_tracked_def split: list.splits)

lemma tracked_clear:
  "timer_tracked s \<Longrightarrow> filter (\<lambda>t. timer_id t \<noteq> animationTimer' s) (timers s) = []"
  by (auto dest!: tracked_cases)

lemma inv_open: "dialog_inv s \<Longrightarrow> dialog_inv (open_dialog k s)"
  by (simp add: dialog_inv_def open_dialog_eq tracked_clear)
     (simp add: timer_tracked_def in_progress_def calls_def delivered_once_append)

lemma inv_close: "dialog_inv s \<Longrightarrow> dialog_inv (close k a s)"
  by (simp add: dialog_inv_def close_eq tracked_clear)
     (simp add: timer_tracked_def in_progress_def calls_def delivered_once_append)

lemma inv_effect_quiet: "\<not> notification c \<Longrightarrow> dialog_inv s \<Longrightarrow> dialog_inv (effect c s)"
  by (auto simp: dialog_inv_def effect_def timer_tracked_def in_progress_def calls_def delivered_once_append quiet_track quiet_admissible split: list.splits)

lemma inv_clear: "dialog_inv s \<Longrightarrow> dialog_inv (clearTimeout (animationTimer' s) s)"
  by (simp add: dialog_inv_def clearTimeout_def effect_def tracked_clear)
     (simp add: timer_tracked_def in_progress_def calls_def delivered_once_append)

lemma animationTimer_effect: "animationTimer' (effect c s) = animationTimer' s"
  by (simp add: effect_def)

lemma inv_end: "dialog_inv s \<Longrightarrow> dialog_inv (handleAnimationTimerEnd' k s)"
  by (simp add: handleAnimationTimerEnd'_def inv_effect_quiet)

lemma inv_destroy: "dialog_inv s \<Longrightarrow> dialog_inv (destroy k s)"
  by (simp add: destroy_def Let_def inv_clear inv_end inv_close)

lemma inv_layout: "dialog_inv s \<Longrightarrow> dialog_inv (layout s)"
  by (auto simp: dialog_inv_def layout_def requestAnimationFrame_def effect_def timer_tracked_def in_progress_def calls_def delivered_once_append split: list.splits)

lemma inv_click: "dialog_inv s \<Longrightarrow> dialog_inv (handleDialogClick' k ad evt s)"
  by (simp add: handleDialogClick'_def Let_def inv_close inv_effect_quiet)

lemma inv_keydown: "dialog_inv s \<Longrightarrow> dialog_inv (handleDocumentKeyDown' k evt s)"
  by (simp add: handleDocumentKeyDown'_def inv_close)

lemma inv_tick: "dialog_inv s \<Longrightarrow> dialog_inv (tick d s)"
  by (auto simp: dialog_inv_def tick_def timer_tracked_def split: list.splits)

lemma inv_frame_callback: "dialog_inv s \<Longrightarrow> dialog_inv (run_frame_callback k ad cb s)"
  by (cases cb) (simp add: detectStackedButtons'_def detectScrollableContent'_def Let_def inv_effect_quiet)

lemma inv_frames_upd: "dialog_inv s \<Longrightarrow> dialog_inv (s\<lparr>frames := fs\<rparr>)"
  by (auto simp: dialog_inv_def timer_tracked_def split: list.splits)

lemma inv_foldl_frames: "dialog_inv s \<Longrightarrow> dialog_inv (foldl (\<lambda>s' cb. run_frame_callback k ad cb s') s cbs)"
  by (induction cbs arbitrary: s) (simp_all add: inv_frame_callback)

lemma inv_frame: "dialog_inv s \<Longrightarrow> dialog_inv (run_frame k ad s)"
  by (simp add: run_frame_def inv_foldl_frames inv_frames_upd)

lemma next_timer_single: "next_timer [t] = Some t"
  by simp

lemma inv_run_timer: "dialog_inv s \<Longrightarrow> dialog_inv (run_timer k s)"
proof -
  assume i: "dialog_inv s"
  then have "timer_tracked s" by (simp add: dialog_inv_def)
  then consider "timers s = []" | t where "timers s = [t]" "in_progress (calls (trace s)) = Some (transition_of (callback t))"
    by (auto dest!: tracked_cases)
  then show ?thesis
  proof cases
    case 1
    then show ?thesis using i by (simp add: run_timer_def)
  next
    case 2
    then show ?thesis using i
      by (cases "callback t") (simp_all add: run_timer_def dialog_inv_def handleAnimationTimerEnd'_def effect_def timer_tracked_def in_progress_def calls_def delivered_once_append)
  qed
qed

lemma inv_step: "dialog_inv s \<Longrightarrow> dialog_inv (do_step k ad s st)"
  by (cases st) (simp_all add: inv_open inv_close inv_destroy inv_layout inv_click inv_keydown inv_tick inv_frame inv_run_timer handleWindowResize'_def)

lemma inv_constructor: "dialog_inv constructor"
  by (simp add: dialog_inv_def constructor_def timer_tracked_def calls_def)

lemma inv_run: "dialog_inv s \<Longrightarrow> dialog_inv (run k ad steps s)"
  unfolding run_def by (induction steps arbitrary: s) (simp_all add: inv_step)


subsection \<open>Letting time pass\<close>

declare advance_to.simps [simp del]

lemma timers_callback: "timers (run_timer_callback k cb s) = timers s"
  by (cases cb) (simp_all add: handleAnimationTimerEnd'_def effect_def)

lemma now_callback: "now (run_timer_callback k cb s) = now s"
  by (cases cb) (simp_all add: handleAnimationTimerEnd'_def effect_def)

lemma callback_now_upd:
  "run_timer_callback k cb (s\<lparr>now := n\<rparr>) = (run_timer_callback k cb s)\<lparr>now := n\<rparr>"
  by (cases cb) (simp_all add: handleAnimationTimerEnd'_def effect_def)


lemma advance_single:
  assumes ts: "timers s = [t]"
  shows "advance k d s =
     (if due t \<le> now s + d
      then tick d (run_timer_callback k (callback t) (s\<lparr>timers := []\<rparr>))
      else tick d s)"
proof (cases "due t \<le> now s + d")
  case False
  with ts show ?thesis
    by (simp add: advance_def advance_to.simps [of k _ s] tick_def)
next
  case True
  define s1 where "s1 = run_timer k (s\<lparr>now := max (now s) (due t)\<rparr>)"
  have s1: "s1 = (run_timer_callback k (callback t) (s\<lparr>timers := []\<rparr>))\<lparr>now := max (now s) (due t)\<rparr>"
    unfolding s1_def using ts
    by (cases "callback t") (simp_all add: run_timer_def handleAnimationTimerEnd'_def effect_def)
  have "advance k d s = advance_to k (now s + d) s1"
    unfolding s1_def using ts True by (simp add: advance_def advance_to.simps [of k _ s])
  also have "\<dots> = s1\<lparr>now := max (now s1) (now s + d)\<rparr>"
    by (subst advance_to.simps) (simp add: s1 timers_callback)
  also have "\<dots> = tick d (run_timer_callback k (callback t) (s\<lparr>timers := []\<rparr>))"
    using True by (simp add: s1 tick_def now_callback max_def)
  finally show ?thesis using True by simp
qed

subsection \<open>What a step adds to the trace\<close>

lemma extends_byI: "trace s' = trace s @ es \<Longrightarrow> list_all Q (calls es) \<Longrightarrow> extends_by Q s s'"
  by (simp add: extends_by_def added_def)

lemma extends_byD: "extends_by Q s s' \<Longrightarrow> \<exists>es. trace s' = trace s @ es \<and> added s s' = es \<and> list_all Q (calls es)"
  by (auto simp: extends_by_def)

lemma extends_by_refl: "extends_by Q s s"
  by (simp add: extends_by_def added_def calls_def)

lemma extends_by_trans: "extends_by Q s s' \<Longrightarrow> extends_by Q s' s'' \<Longrightarrow> extends_by Q s s''"
  by (auto dest!: extends_byD intro!: extends_byI simp: calls_def)

lemma added_trans:
  assumes "extends_by Q s s'" and "extends_by R s' s''"
  shows "added s s'' = added s s' @ added s' s''"
proof -
  obtain es where es: "trace s' = trace s @ es" "added s s' = es"
    using assms(1) by (auto dest!: extends_byD)
  obtain fs where fs: "trace s'' = trace s' @ fs" "added s' s'' = fs"
    using assms(2) by (auto dest!: extends_byD)
  have "added s s'' = es @ fs"
    by (simp add: added_def es(1) fs(1))
  then show ?thesis by (simp add: es(2) fs(2))
qed

lemma extends_effect: "Q c \<Longrightarrow> extends_by Q s (effect c s)"
  by (rule extends_byI [where es = "[(isOpen' s, c)]"]) (simp_all add: effect_def calls_def)

lemma extends_trace_eq: "trace s' = trace s \<Longrightarrow> extends_by Q s s'"
  by (rule extends_byI [where es = "[]"]) (simp_all add: calls_def)


lemma extends_open: "(\<And>c. \<not> completion c \<Longrightarrow> Q c) \<Longrightarrow> extends_by Q s (open_dialog k s)"
  by (rule extends_byI [where es = "added s (open_dialog k s)"])
     (simp_all add: open_dialog_eq added_def calls_def)

lemma extends_close: "(\<And>c. \<not> completion c \<Longrightarrow> Q c) \<Longrightarrow> extends_by Q s (close k a s)"
  by (rule extends_byI [where es = "added s (close k a s)"])
     (simp_all add: close_eq added_def calls_def)

lemma extends_end: "(\<And>c. \<not> notification c \<Longrightarrow> Q c) \<Longrightarrow> extends_by Q s (handleAnimationTimerEnd' k s)"
  unfolding handleAnimationTimerEnd'_def
  by (rule extends_by_trans [OF extends_effect extends_effect]) simp_all

lemma extends_clear: "(\<And>c. \<not> notification c \<Longrightarrow> Q c) \<Longrightarrow> extends_by Q s (clearTimeout h s)"
  by (rule extends_byI [where es = "[(isOpen' s, ClearTimeout h)]"])
     (simp_all add: clearTimeout_def effect_def calls_def)

lemma completion_notification: "completion c \<Longrightarrow> notification c"
  by (cases c) simp_all

lemma extends_destroy:
  assumes Q: "\<And>c. \<not> completion c \<Longrightarrow> Q c"
  shows "extends_by Q s (destroy k s)"
proof -
  have Q': "\<And>c. \<not> notification c \<Longrightarrow> Q c"
    using Q completion_notification by blast
  let ?s1 = "if isOpen' s then close k (Str (DESTROY_ACTION k)) s else s"
  have "extends_by Q s ?s1"
    using Q by (simp add: extends_close extends_by_refl)
  moreover have "extends_by Q ?s1 (handleAnimationTimerEnd' k ?s1)"
    using Q' by (rule extends_end)
  moreover have "extends_by Q (handleAnimationTimerEnd' k ?s1)
      (clearTimeout (animationTimer' (handleAnimationTimerEnd' k ?s1)) (handleAnimationTimerEnd' k ?s1))"
    using Q' by (rule extends_clear)
  ultimately show ?thesis
    unfolding destroy_def Let_def by (blast intro: extends_by_trans)
qed

lemma extends_layout: "(\<And>c. \<not> notification c \<Longrightarrow> Q c) \<Longrightarrow> extends_by Q s (layout s)"
  by (rule extends_byI [where es = "[(isOpen' s, RequestAnimationFrame LayoutFrameCallback)]"])
     (simp_all add: layout_def requestAnimationFrame_def effect_def calls_def)

lemma extends_click:
  assumes Q: "\<And>c. \<not> completion c \<Longrightarrow> Q c"
  shows "extends_by Q s (handleDialogClick' k ad evt s)"
proof -
  have "extends_by Q s (effect (GetActionFromEvent evt) s)"
    using Q by (simp add: extends_effect)
  moreover have "extends_by Q (effect (GetActionFromEvent evt) s) (close k a (effect (GetActionFromEvent evt) s))" for a
    using Q by (rule extends_close)
  ultimately show ?thesis
    unfolding handleDialogClick'_def Let_def by (auto intro: extends_by_trans)
qed

lemma extends_keydown: "(\<And>c. \<not> completion c \<Longrightarrow> Q c) \<Longrightarrow> extends_by Q s (handleDocumentKeyDown' k evt s)"
  by (simp add: handleDocumentKeyDown'_def extends_close extends_by_refl)

lemma extends_frame_callback:
  assumes Q: "\<And>c. \<not> notification c \<Longrightarrow> Q c"
  shows "extends_by Q s (run_frame_callback k ad cb s)"
proof (cases cb)
  case LayoutFrameCallback
  have a: "extends_by Q s0 (detectStackedButtons' k ad s0)" for s0 :: "'a state"
    unfolding detectStackedButtons'_def Let_def using Q
    by (auto intro!: extends_by_trans [OF extends_effect extends_effect]
          extends_by_trans [OF extends_effect extends_by_trans [OF extends_effect extends_effect]])
  have b: "extends_by Q s0 (detectScrollableContent' k ad s0)" for s0 :: "'a state"
    unfolding detectScrollableContent'_def Let_def using Q
    by (auto intro!: extends_by_trans [OF extends_effect extends_effect]
          extends_by_trans [OF extends_effect extends_by_trans [OF extends_effect extends_effect]])
  show ?thesis
    using LayoutFrameCallback by (simp add: extends_by_trans [OF a b])
qed

lemma extends_foldl_frames:
  assumes Q: "\<And>c. \<not> notification c \<Longrightarrow> Q c"
  shows "extends_by Q s (foldl (\<lambda>s' cb. run_frame_callback k ad cb s') s cbs)"
proof (induction cbs arbitrary: s)
  case Nil
  show ?case by (simp add: extends_by_refl)
next
  case (Cons cb cbs)
  show ?case
    using extends_by_trans [OF extends_frame_callback [where Q = Q] Cons.IH] Q by simp
qed

lemma extends_frame:
  assumes Q: "\<And>c. \<not> notification c \<Longrightarrow> Q c"
  shows "extends_by Q s (run_frame k ad s)"
proof -
  have "extends_by Q s (s\<lparr>frames := []\<rparr>)"
    by (simp add: extends_trace_eq)
  then show ?thesis
    unfolding run_frame_def
    by (rule extends_by_trans) (rule extends_foldl_frames [where Q = Q], rule Q)
qed

lemma step_no_completion:
  assumes "st \<noteq> RunTimer"
  shows "extends_by (\<lambda>c. \<not> completion c) s (do_step k ad s st)"
proof -
  have Q: "\<And>c. \<not> notification c \<Longrightarrow> \<not> completion c"
    using completion_notification by blast
  show ?thesis
    using assms
    by (cases st)
       (simp_all add: extends_open extends_close extends_destroy extends_layout Q
          extends_click extends_keydown extends_frame handleWindowResize'_def
          extends_trace_eq tick_def)
qed

lemma run_no_completion:
  "RunTimer \<notin> set mid \<Longrightarrow> extends_by (\<lambda>c. \<not> completion c) s (run k ad mid s)"
proof (induction mid arbitrary: s)
  case Nil
  show ?case by (simp add: run_def extends_by_refl)
next
  case (Cons st mid)
  have "extends_by (\<lambda>c. \<not> completion c) s (do_step k ad s st)"
    using Cons.prems by (intro step_no_completion) auto
  moreover have "extends_by (\<lambda>c. \<not> completion c) (do_step k ad s st) (run k ad mid (do_step k ad s st))"
    using Cons by simp
  ultimately show ?case
    by (simp add: run_def) (blast intro: extends_by_trans)
qed







lemma extends_filter: "extends_by (\<lambda>c. \<not> P c) s s' \<Longrightarrow> filter P (calls (added s s')) = []"
  by (simp add: extends_by_def list_all_iff filter_empty_conv)

subsection \<open>The handler references never change\<close>

lemma handlers_callback:
  "dialogClickHandler' (run_timer_callback k cb s) = dialogClickHandler' s"
  "documentKeyDownHandler' (run_timer_callback k cb s) = documentKeyDownHandler' s"
  "windowResizeHandler' (run_timer_callback k cb s) = windowResizeHandler' s"
  by (cases cb; simp add: handleAnimationTimerEnd'_def effect_def)+

lemma handlers_frame_callback:
  "dialogClickHandler' (run_frame_callback k ad cb s) = dialogClickHandler' s"
  "documentKeyDownHandler' (run_frame_callback k ad cb s) = documentKeyDownHandler' s"
  "windowResizeHandler' (run_frame_callback k ad cb s) = windowResizeHandler' s"
  by (cases cb; simp add: detectStackedButtons'_def detectScrollableContent'_def Let_def effect_def)+

lemma handlers_foldl_frames:
  "dialogClickHandler' (foldl (\<lambda>s' cb. run_frame_callback k ad cb s') s cbs) = dialogClickHandler' s
   \<and> documentKeyDownHandler' (foldl (\<lambda>s' cb. run_frame_callback k ad cb s') s cbs) = documentKeyDownHandler' s
   \<and> windowResizeHandler' (foldl (\<lambda>s' cb. run_frame_callback k ad cb s') s cbs) = windowResizeHandler' s"
  by (induction cbs arbitrary: s) (simp_all add: handlers_frame_callback)

lemma handlers_step:
  "dialogClickHandler' (do_step k ad s st) = dialogClickHandler' s
   \<and> documentKeyDownHandler' (do_step k ad s st) = documentKeyDownHandler' s
   \<and> windowResizeHandler' (do_step k ad s st) = windowResizeHandler' s"
proof (cases st)
  case Frame
  then show ?thesis by (simp add: run_frame_def handlers_foldl_frames)
next
  case RunTimer
  then show ?thesis by (simp add: run_timer_def handlers_callback split: option.splits)
qed (simp_all add: open_dialog_eq close_eq destroy_def Let_def prim_defs
      handleDialogClick'_def handleWindowResize'_def handleDocumentKeyDown'_def tick_def)

lemma handlers_run:
  "dialogClickHandler' (run k ad steps s) = dialogClickHandler' s
   \<and> documentKeyDownHandler' (run k ad steps s) = documentKeyDownHandler' s
   \<and> windowResizeHandler' (run k ad steps s) = windowResizeHandler' s"
  unfolding run_def by (induction steps arbitrary: s) (simp_all add: handlers_step)

lemma run_timer_callback_eq:
  "run_timer_callback k OpenTimerCallback s = s\<lparr>trace := trace s @ map (Pair (isOpen' s))
       [RemoveClass (OPENING k), RemoveClass (CLOSING k), TrapFocus, NotifyOpened]\<rparr>"
  "run_timer_callback k (CloseTimerCallback a) s = s\<lparr>trace := trace s @ map (Pair (isOpen' s))
       [RemoveClass (OPENING k), RemoveClass (CLOSING k), NotifyClosed a]\<rparr>"
  by (simp_all add: handleAnimationTimerEnd'_def effect_def)

subsection \<open>What open and close do\<close>

text \<open>
  Claim C1. Every call of \<^verbatim>\<open>open()\<close> sets the flag and then makes these calls, in this order,
  all of them with the flag already true: it registers the click handler on the dialog
  surface, the keydown handler on the document, and one and the same handler for resize and
  for orientationchange on the window; adds the opening class; calls
  \<^verbatim>\<open>computeBoundingRect\<close>; adds the open class; adds the scroll-lock class to the body;
  calls \<^verbatim>\<open>notifyOpening\<close>; calls \<^verbatim>\<open>layout()\<close>, which requests an animation frame; clears
  the timer \<^verbatim>\<open>animationTimer_\<close> names; and sets a timer for the open duration, whose handle
  it stores. The theorem gives the whole state after the call. When the callback of that
  timer runs, it removes the opening and the closing class, calls \<^verbatim>\<open>trapFocus\<close> and then
  \<^verbatim>\<open>notifyOpened\<close>.
\<close>

theorem open_effects_in_order:
  "open_dialog k s =
     s\<lparr>isOpen' := True,
       animationTimer' := nextTimerId s,
       trace := trace s @ map (Pair True)
         [RegisterInteractionHandler ''click'' (dialogClickHandler' s),
          RegisterDocumentHandler ''keydown'' (documentKeyDownHandler' s),
          RegisterWindowHandler ''resize'' (windowResizeHandler' s),
          RegisterWindowHandler ''orientationchange'' (windowResizeHandler' s),
          AddClass (OPENING k),
          ComputeBoundingRect,
          AddClass (OPEN k),
          AddBodyClass (SCROLL_LOCK k),
          NotifyOpening,
          RequestAnimationFrame LayoutFrameCallback,
          ClearTimeout (animationTimer' s),
          SetTimeout OpenTimerCallback (DIALOG_ANIMATION_OPEN_TIME_MS k)],
       nextTimerId := Suc (nextTimerId s),
       timers := filter (\<lambda>t. timer_id t \<noteq> animationTimer' s) (timers s) @
         [\<lparr>timer_id = nextTimerId s,
           due = now s + DIALOG_ANIMATION_OPEN_TIME_MS k,
           callback = OpenTimerCallback\<rparr>],
       frames := frames s @ [LayoutFrameCallback]\<rparr>
   \<and> run_timer_callback k OpenTimerCallback s' =
     s'\<lparr>trace := trace s' @ map (Pair (isOpen' s'))
         [RemoveClass (OPENING k), RemoveClass (CLOSING k), TrapFocus, NotifyOpened]\<rparr>"
  by (simp only: open_dialog_eq run_timer_callback_eq simp_thms)

text \<open>
  Claim C2. Every call of \<^verbatim>\<open>close(action)\<close> sets the flag to false and then makes these
  calls, in this order: it deregisters the click, keydown, resize and orientationchange
  handlers; calls \<^verbatim>\<open>releaseFocus\<close>; adds the closing class; removes the open class; removes
  the scroll-lock class from the body; calls \<^verbatim>\<open>notifyClosing(action)\<close>; clears the timer
  \<^verbatim>\<open>animationTimer_\<close> names; and sets a timer for the close duration. The callback of that
  timer removes the opening and the closing class and calls \<^verbatim>\<open>notifyClosed(action)\<close>, with
  the action \<^verbatim>\<open>close\<close> was given. In every execution the references an \<^verbatim>\<open>open()\<close> registers
  and the references a later \<^verbatim>\<open>close()\<close> deregisters are the same: the three closures of the
  constructor.
\<close>

theorem close_effects_in_order:
  "close k action s =
     s\<lparr>isOpen' := False,
       animationTimer' := nextTimerId s,
       trace := trace s @ map (Pair False)
         [DeregisterInteractionHandler ''click'' (dialogClickHandler' s),
          DeregisterDocumentHandler ''keydown'' (documentKeyDownHandler' s),
          DeregisterWindowHandler ''resize'' (windowResizeHandler' s),
          DeregisterWindowHandler ''orientationchange'' (windowResizeHandler' s),
          ReleaseFocus,
          AddClass (CLOSING k),
          RemoveClass (OPEN k),
          RemoveBodyClass (SCROLL_LOCK k),
          NotifyClosing action,
          ClearTimeout (animationTimer' s),
          SetTimeout (CloseTimerCallback action) (DIALOG_ANIMATION_CLOSE_TIME_MS k)],
       nextTimerId := Suc (nextTimerId s),
       timers := filter (\<lambda>t. timer_id t \<noteq> animationTimer' s) (timers s) @
         [\<lparr>timer_id = nextTimerId s,
           due = now s + DIALOG_ANIMATION_CLOSE_TIME_MS k,
           callback = CloseTimerCallback action\<rparr>]\<rparr>
   \<and> run_timer_callback k (CloseTimerCallback action) s' =
     s'\<lparr>trace := trace s' @ map (Pair (isOpen' s'))
         [RemoveClass (OPENING k), RemoveClass (CLOSING k), NotifyClosed action]\<rparr>
   \<and> take 4 (calls (added (run k ad pre constructor) (open_dialog k (run k ad pre constructor)))) =
       [RegisterInteractionHandler ''click'' DialogClickHandler,
        RegisterDocumentHandler ''keydown'' DocumentKeyDownHandler,
        RegisterWindowHandler ''resize'' WindowResizeHandler,
        RegisterWindowHandler ''orientationchange'' WindowResizeHandler]
   \<and> take 4 (calls (added (run k ad mid (open_dialog k (run k ad pre constructor)))
         (close k action (run k ad mid (open_dialog k (run k ad pre constructor)))))) =
       [DeregisterInteractionHandler ''click'' DialogClickHandler,
        DeregisterDocumentHandler ''keydown'' DocumentKeyDownHandler,
        DeregisterWindowHandler ''resize'' WindowResizeHandler,
        DeregisterWindowHandler ''orientationchange'' WindowResizeHandler]"
proof -
  have h: "dialogClickHandler' (run k ad steps constructor) = DialogClickHandler
      \<and> documentKeyDownHandler' (run k ad steps constructor) = DocumentKeyDownHandler
      \<and> windowResizeHandler' (run k ad steps constructor) = WindowResizeHandler" for steps
    using handlers_run [of k ad steps constructor] by (simp add: constructor_def)
  have run_open: "run k ad mid (open_dialog k (run k ad pre constructor)) = run k ad (pre @ Open # mid) constructor"
    by (simp add: run_def)
  have 3: "take 4 (calls (added (run k ad pre constructor) (open_dialog k (run k ad pre constructor)))) =
       [RegisterInteractionHandler ''click'' DialogClickHandler,
        RegisterDocumentHandler ''keydown'' DocumentKeyDownHandler,
        RegisterWindowHandler ''resize'' WindowResizeHandler,
        RegisterWindowHandler ''orientationchange'' WindowResizeHandler]"
    by (simp add: open_dialog_eq added_def calls_def h)
  have 4: "take 4 (calls (added (run k ad mid (open_dialog k (run k ad pre constructor)))
         (close k action (run k ad mid (open_dialog k (run k ad pre constructor)))))) =
       [DeregisterInteractionHandler ''click'' DialogClickHandler,
        DeregisterDocumentHandler ''keydown'' DocumentKeyDownHandler,
        DeregisterWindowHandler ''resize'' WindowResizeHandler,
        DeregisterWindowHandler ''orientationchange'' WindowResizeHandler]"
    unfolding run_open by (simp add: close_eq added_def calls_def h)
  show ?thesis
    using 3 4 by (simp only: close_eq run_timer_callback_eq simp_thms)
qed

text \<open>
  Claim C6. \<^verbatim>\<open>isOpen()\<close> returns the flag and changes nothing. It is true as soon as
  \<^verbatim>\<open>open()\<close> has returned, while the timer of \<^verbatim>\<open>open()\<close> is still pending and
  \<^verbatim>\<open>notifyOpened\<close> has not been called; it is false as soon as \<^verbatim>\<open>close()\<close> has returned.
  Every call that \<^verbatim>\<open>open()\<close> makes to the outside already sees the flag true, and every call
  that \<^verbatim>\<open>close()\<close> makes already sees it false.
\<close>

theorem isOpen_synchronous:
  "isOpen s = isOpen' s
   \<and> isOpen (open_dialog k s)
   \<and> \<not> isOpen (close k action s)
   \<and> map fst (added s (open_dialog k s)) = replicate 12 True
   \<and> map fst (added s (close k action s)) = replicate 11 False
   \<and> \<lparr>timer_id = nextTimerId s, due = now s + DIALOG_ANIMATION_OPEN_TIME_MS k,
       callback = OpenTimerCallback\<rparr> \<in> set (timers (open_dialog k s))
   \<and> NotifyOpened \<notin> set (calls (added s (open_dialog k s)))"
  by (simp add: isOpen_def open_dialog_eq close_eq added_def calls_def numeral_eq_Suc)

subsection \<open>A transition alone: letting its time pass\<close>


lemma timers_close: "timer_tracked s \<Longrightarrow> timers (close k a s) =
    [\<lparr>timer_id = nextTimerId s, due = now s + DIALOG_ANIMATION_CLOSE_TIME_MS k, callback = CloseTimerCallback a\<rparr>]"
  by (simp add: close_eq tracked_clear)


lemma now_close: "now (close k a s) = now s"
  by (simp add: close_eq)

lemma isOpen_close: "isOpen' (close k a s) = False"
  by (simp add: close_eq)



lemma advance_close:
  assumes "timer_tracked s"
  shows "trace (advance k d (close k a s)) = trace (close k a s) @
           (if DIALOG_ANIMATION_CLOSE_TIME_MS k \<le> d
            then map (Pair False) [RemoveClass (OPENING k), RemoveClass (CLOSING k), NotifyClosed a]
            else [])"
    and "timers (advance k d (close k a s)) =
           (if DIALOG_ANIMATION_CLOSE_TIME_MS k \<le> d then [] else timers (close k a s))"
  using advance_single [OF timers_close [OF assms], of k d k a]
  by (simp_all add: now_close tick_def handleAnimationTimerEnd'_def effect_def isOpen_close)

lemma inv_reachable: "dialog_inv (run k ad steps constructor)"
  by (rule inv_run [OF inv_constructor])

lemma tracked_reachable: "timer_tracked (run k ad steps constructor)"
  using inv_reachable [of k ad steps] by (simp add: dialog_inv_def)

lemma tracked_effect: "timer_tracked s \<Longrightarrow> \<not> notification c \<Longrightarrow> timer_tracked (effect c s)"
  by (auto simp: timer_tracked_def effect_def in_progress_def calls_def quiet_track split: list.splits)

subsection \<open>The animation frame\<close>

lemma classes_append: "classes (cs @ ds) = foldl apply_class (classes cs) ds"
  by (simp add: classes_def)

lemma frame_callback_trace:
  "trace (detectScrollableContent' k ad (detectStackedButtons' k ad s)) =
     trace s @ map (Pair (isOpen' s))
       ([RemoveClass (STACKED k), AreButtonsStacked] @
        (if areButtonsStacked ad (trace (effect (RemoveClass (STACKED k)) s))
         then [AddClass (STACKED k)] else []) @
        [RemoveClass (SCROLLABLE k), IsContentScrollable] @
        (if isContentScrollable ad
              (trace (effect (RemoveClass (SCROLLABLE k)) (detectStackedButtons' k ad s)))
         then [AddClass (SCROLLABLE k)] else []))"
  by (simp add: detectStackedButtons'_def detectScrollableContent'_def Let_def effect_def)

lemma run_frame_layout:
  "run_frame k ad (layout s) =
     run_frame_callback k ad LayoutFrameCallback
       (run_frame k ad (effect (RequestAnimationFrame LayoutFrameCallback) s))"
  by (simp add: run_frame_def layout_def requestAnimationFrame_def effect_def)

subsection \<open>Events\<close>

text \<open>
  Claim C7. A keydown event whose \<^verbatim>\<open>key\<close> is \<^verbatim>\<open>'Escape'\<close> or whose \<^verbatim>\<open>keyCode\<close> is 27
  makes the handler call \<^verbatim>\<open>close\<close> with the escape action: the dialog is closed and
  \<^verbatim>\<open>notifyClosing\<close> gets that action. For every other key the handler returns the state
  as it was: nothing is called and nothing changes.
\<close>

theorem escape_key_closes:
  "(key evt = Some ''Escape'' \<or> keyCode evt = Some 27 \<longrightarrow>
      handleDocumentKeyDown' k evt s = close k (Str (ESCAPE_ACTION k)) s
      \<and> \<not> isOpen (handleDocumentKeyDown' k evt s)
      \<and> filter notification (calls (added s (handleDocumentKeyDown' k evt s))) =
          [NotifyClosing (Str (ESCAPE_ACTION k))])
   \<and> (\<not> (key evt = Some ''Escape'' \<or> keyCode evt = Some 27) \<longrightarrow>
      handleDocumentKeyDown' k evt s = s)"
  by (simp add: handleDocumentKeyDown'_def isOpen_def close_eq added_def calls_def)

theorem escape_key_closes_witness:
  "handleDocumentKeyDown' example_constants \<lparr>key = Some ''Escape'', keyCode = None\<rparr>
      (open_dialog example_constants (constructor :: unit state)) =
     close example_constants (Str (ESCAPE_ACTION example_constants))
       (open_dialog example_constants constructor)
   \<and> \<not> isOpen (handleDocumentKeyDown' example_constants \<lparr>key = None, keyCode = Some 27\<rparr>
      (open_dialog example_constants (constructor :: unit state)))
   \<and> handleDocumentKeyDown' example_constants \<lparr>key = Some ''Enter'', keyCode = Some 13\<rparr>
      (open_dialog example_constants (constructor :: unit state)) =
     open_dialog example_constants constructor"
proof -
  let ?s = "open_dialog example_constants (constructor :: unit state)"
  let ?esc = "\<lparr>key = Some ''Escape'', keyCode = None\<rparr>"
  let ?old = "\<lparr>key = None, keyCode = Some 27\<rparr>"
  let ?enter = "\<lparr>key = Some ''Enter'', keyCode = Some 13\<rparr>"
  have esc: "key ?esc = Some ''Escape'' \<or> keyCode ?esc = Some 27"
    by simp
  have old: "key ?old = Some ''Escape'' \<or> keyCode ?old = Some 27"
    by simp
  have enter: "\<not> (key ?enter = Some ''Escape'' \<or> keyCode ?enter = Some 27)"
    by simp
  have 1: "handleDocumentKeyDown' example_constants ?esc ?s =
      close example_constants (Str (ESCAPE_ACTION example_constants)) ?s"
    using escape_key_closes [of ?esc example_constants ?s] esc by blast
  have 2: "\<not> isOpen (handleDocumentKeyDown' example_constants ?old ?s)"
    using escape_key_closes [of ?old example_constants ?s] old by blast
  have 3: "handleDocumentKeyDown' example_constants ?enter ?s = ?s"
    using escape_key_closes [of ?enter example_constants ?s] enter by blast
  show ?thesis
    using 1 2 3 by (intro conjI)
qed

text \<open>
  Claim C8, as the code has it. The click handler asks the adapter for the action of the
  event. If the answer is falsy (\<^verbatim>\<open>undefined\<close>, \<^verbatim>\<open>null\<close> or the empty string), the query is
  all that happens: the dialog is not closed and no field changes. If the answer is a
  non-empty string, the handler calls \<^verbatim>\<open>close\<close> with it, and once the close duration has
  passed both \<^verbatim>\<open>notifyClosing\<close> and \<^verbatim>\<open>notifyClosed\<close> have received exactly that string.

  A token that is present need not close the dialog: with the empty string, which is
  present and falsy, the dialog stays open and \<^verbatim>\<open>notifyClosing\<close> is not called, as the
  last theorem of the three shows on an example.
\<close>

theorem click_closes_with_action:
  "(\<not> truthy (getActionFromEvent ad (trace s) evt) \<longrightarrow>
      handleDialogClick' k ad evt s =
        s\<lparr>trace := trace s @ [(isOpen' s, GetActionFromEvent evt)]\<rparr>)
   \<and> (truthy (getActionFromEvent ad (trace s) evt) \<longrightarrow>
      handleDialogClick' k ad evt s =
        close k (getActionFromEvent ad (trace s) evt) (effect (GetActionFromEvent evt) s))
   \<and> (truthy (getActionFromEvent ad (trace (run k ad steps constructor)) evt)
        \<and> DIALOG_ANIMATION_CLOSE_TIME_MS k \<le> d \<longrightarrow>
      filter notification (calls (added (run k ad steps constructor)
          (advance k d (handleDialogClick' k ad evt (run k ad steps constructor))))) =
        [NotifyClosing (getActionFromEvent ad (trace (run k ad steps constructor)) evt),
         NotifyClosed (getActionFromEvent ad (trace (run k ad steps constructor)) evt)])"
proof -
  let ?r = "run k ad steps constructor"
  let ?a = "getActionFromEvent ad (trace ?r) evt"
  have tr: "timer_tracked (effect (GetActionFromEvent evt) ?r)"
    by (simp add: tracked_effect tracked_reachable)
  have "filter notification (calls (added ?r
          (advance k d (close k ?a (effect (GetActionFromEvent evt) ?r))))) =
        [NotifyClosing ?a, NotifyClosed ?a]"
    if "DIALOG_ANIMATION_CLOSE_TIME_MS k \<le> d"
    using that
    by (simp add: advance_close(1) [OF tr] added_def calls_def) (simp add: close_eq effect_def)
  then show ?thesis
    by (simp add: handleDialogClick'_def effect_def)
qed


theorem click_closes_with_action_witness:
  "truthy (getActionFromEvent (stub_adapter False False (Str ''accept''))
       (trace (run example_constants (stub_adapter False False (Str ''accept'')) [Open]
          (constructor :: unit state))) ())
   \<and> DIALOG_ANIMATION_CLOSE_TIME_MS example_constants \<le> 75
   \<and> filter notification (calls (added
        (run example_constants (stub_adapter False False (Str ''accept'')) [Open]
          (constructor :: unit state))
        (advance example_constants 75
          (handleDialogClick' example_constants (stub_adapter False False (Str ''accept'')) ()
            (run example_constants (stub_adapter False False (Str ''accept'')) [Open]
              (constructor :: unit state)))))) =
       [NotifyClosing (Str ''accept''), NotifyClosed (Str ''accept'')]
   \<and> \<not> truthy (getActionFromEvent (stub_adapter False False Undefined)
       (trace (constructor :: unit state)) ())
   \<and> handleDialogClick' example_constants (stub_adapter False False Undefined) ()
        (constructor :: unit state) =
      constructor\<lparr>trace := trace constructor @
        [(isOpen' (constructor :: unit state), GetActionFromEvent ())]\<rparr>"
proof -
  let ?ad = "stub_adapter False False (Str ''accept'') :: unit adapter"
  let ?no = "stub_adapter False False Undefined :: unit adapter"
  let ?r = "run example_constants ?ad [Open] (constructor :: unit state)"
  have token: "getActionFromEvent ?ad (trace ?r) () = Str ''accept''"
    by (simp add: stub_adapter_def)
  have yes: "truthy (getActionFromEvent ?ad (trace ?r) ())"
    by (simp add: stub_adapter_def)
  have long: "DIALOG_ANIMATION_CLOSE_TIME_MS example_constants \<le> 75"
    by (simp add: example_constants_def)
  have no: "\<not> truthy (getActionFromEvent ?no (trace (constructor :: unit state)) ())"
    by (simp add: stub_adapter_def)
  have "filter notification (calls (added ?r
          (advance example_constants 75 (handleDialogClick' example_constants ?ad () ?r)))) =
        [NotifyClosing (getActionFromEvent ?ad (trace ?r) ()),
         NotifyClosed (getActionFromEvent ?ad (trace ?r) ())]"
    by (rule click_closes_with_action [THEN conjunct2, THEN conjunct2, THEN mp,
          OF conjI [OF yes long]])
  then have both: "filter notification (calls (added ?r
          (advance example_constants 75 (handleDialogClick' example_constants ?ad () ?r)))) =
        [NotifyClosing (Str ''accept''), NotifyClosed (Str ''accept'')]"
    by (simp only: token)
  have same: "handleDialogClick' example_constants ?no () (constructor :: unit state) =
      constructor\<lparr>trace := trace constructor @
        [(isOpen' (constructor :: unit state), GetActionFromEvent ())]\<rparr>"
    by (rule click_closes_with_action [THEN conjunct1, THEN mp, OF no])
  show ?thesis
    using yes long both no same by (intro conjI)
qed

theorem click_present_token_counterexample:
  "getActionFromEvent (stub_adapter False False (Str [])) 
       (trace (open_dialog example_constants (constructor :: unit state))) () = Str []
   \<and> Str [] \<noteq> Undefined \<and> Str [] \<noteq> Null
   \<and> handleDialogClick' example_constants (stub_adapter False False (Str [])) ()
        (open_dialog example_constants (constructor :: unit state)) \<noteq>
      close example_constants (Str [])
        (effect (GetActionFromEvent ()) (open_dialog example_constants (constructor :: unit state)))
   \<and> isOpen (handleDialogClick' example_constants (stub_adapter False False (Str [])) ()
        (open_dialog example_constants (constructor :: unit state)))
   \<and> NotifyClosing (Str []) \<notin> set (calls (trace
        (handleDialogClick' example_constants (stub_adapter False False (Str [])) ()
          (open_dialog example_constants (constructor :: unit state)))))"
proof -
  let ?s = "open_dialog example_constants (constructor :: unit state)"
  let ?ad = "stub_adapter False False (Str []) :: unit adapter"
  have click: "handleDialogClick' example_constants ?ad () ?s = effect (GetActionFromEvent ()) ?s"
    by (simp add: handleDialogClick'_def stub_adapter_def)
  have 1: "isOpen' (effect (GetActionFromEvent ()) ?s)"
    by (simp add: effect_def open_dialog_eq)
  have 2: "\<not> isOpen' (close example_constants (Str []) (effect (GetActionFromEvent ()) ?s))"
    by (simp add: isOpen_close)
  have 3: "NotifyClosing (Str []) \<notin> set (calls (trace (effect (GetActionFromEvent ()) ?s)))"
    by (simp add: effect_def open_dialog_eq calls_def constructor_def)
  have 4: "effect (GetActionFromEvent ()) ?s \<noteq>
      close example_constants (Str []) (effect (GetActionFromEvent ()) ?s)"
    using 1 2 by metis
  have token: "getActionFromEvent ?ad (trace ?s) () = Str []"
    by (simp add: stub_adapter_def)
  show ?thesis
    using token 1 3 4 by (simp add: click isOpen_def)
qed

text \<open>
  Claim C10. When the adapter answers a click with the empty string, a token that is
  present and falsy, the handler does what it does for an absent token: the query is the
  only call, \<^verbatim>\<open>close\<close> is not called, \<^verbatim>\<open>isOpen()\<close> is as before and no notification is
  sent.
\<close>

theorem falsy_action_ignored:
  assumes "getActionFromEvent ad (trace s) evt = Str []"
  shows "handleDialogClick' k ad evt s =
           s\<lparr>trace := trace s @ [(isOpen' s, GetActionFromEvent evt)]\<rparr>
         \<and> handleDialogClick' k ad evt s =
           handleDialogClick' k (stub_adapter stacked scrollable Undefined) evt s
         \<and> isOpen (handleDialogClick' k ad evt s) = isOpen s
         \<and> filter notification (calls (added s (handleDialogClick' k ad evt s))) = []"
  using assms
  by (simp add: handleDialogClick'_def effect_def stub_adapter_def isOpen_def added_def calls_def)

theorem falsy_action_ignored_witness:
  "getActionFromEvent (stub_adapter False False (Str [])) 
       (trace (open_dialog example_constants (constructor :: unit state))) () = Str []
   \<and> isOpen (handleDialogClick' example_constants (stub_adapter False False (Str [])) ()
        (open_dialog example_constants (constructor :: unit state)))
   \<and> filter notification (calls (added (open_dialog example_constants (constructor :: unit state))
        (handleDialogClick' example_constants (stub_adapter False False (Str [])) ()
          (open_dialog example_constants (constructor :: unit state))))) = []"
proof -
  let ?s = "open_dialog example_constants (constructor :: unit state)"
  let ?ad = "stub_adapter False False (Str []) :: unit adapter"
  have token: "getActionFromEvent ?ad (trace ?s) () = Str []"
    by (simp add: stub_adapter_def)
  have was_open: "isOpen ?s"
    by (simp add: isOpen_def open_dialog_eq)
  have "isOpen (handleDialogClick' example_constants ?ad () ?s) = isOpen ?s"
    and quiet: "filter notification (calls (added ?s
        (handleDialogClick' example_constants ?ad () ?s))) = []"
    using falsy_action_ignored [OF token, of example_constants False False] by blast+
  with was_open have "isOpen (handleDialogClick' example_constants ?ad () ?s)"
    by blast
  with token quiet show ?thesis
    by (intro conjI)
qed

subsection \<open>Layout\<close>

text \<open>
  Claim C9. \<^verbatim>\<open>layout()\<close> does nothing at once but request an animation frame. In the next
  frame its callback runs, after the callbacks requested before it. The callback removes
  the stacked class, asks \<^verbatim>\<open>areButtonsStacked\<close> and adds the class again exactly when the
  answer is true; then it removes the scrollable class, asks \<^verbatim>\<open>isContentScrollable\<close> and
  adds that class again exactly when the answer is true. With an adapter that answers true
  to the first and false to the second, and two different class names, the stacked class
  is on the dialog afterwards and the scrollable class is not.
\<close>

theorem layout_deferred_measurements:
  "layout s =
     s\<lparr>trace := trace s @ [(isOpen' s, RequestAnimationFrame LayoutFrameCallback)],
       frames := frames s @ [LayoutFrameCallback]\<rparr>
   \<and> run_frame k ad (layout s) =
     run_frame_callback k ad LayoutFrameCallback
       (run_frame k ad (effect (RequestAnimationFrame LayoutFrameCallback) s))
   \<and> calls (added s' (run_frame_callback k ad LayoutFrameCallback s')) =
       [RemoveClass (STACKED k), AreButtonsStacked] @
       (if areButtonsStacked ad (trace (effect (RemoveClass (STACKED k)) s'))
        then [AddClass (STACKED k)] else []) @
       [RemoveClass (SCROLLABLE k), IsContentScrollable] @
       (if isContentScrollable ad
             (trace (effect (RemoveClass (SCROLLABLE k)) (detectStackedButtons' k ad s')))
        then [AddClass (SCROLLABLE k)] else [])
   \<and> (STACKED k \<noteq> SCROLLABLE k \<longrightarrow>
        classes (calls (trace (run_frame_callback k (stub_adapter True False action)
            LayoutFrameCallback s'))) \<inter> {STACKED k, SCROLLABLE k} = {STACKED k})"
proof -
  have 1: "layout s = s\<lparr>trace := trace s @ [(isOpen' s, RequestAnimationFrame LayoutFrameCallback)],
       frames := frames s @ [LayoutFrameCallback]\<rparr>"
    by (simp add: layout_def requestAnimationFrame_def effect_def)
  have 3: "calls (added s' (run_frame_callback k ad LayoutFrameCallback s')) =
       [RemoveClass (STACKED k), AreButtonsStacked] @
       (if areButtonsStacked ad (trace (effect (RemoveClass (STACKED k)) s'))
        then [AddClass (STACKED k)] else []) @
       [RemoveClass (SCROLLABLE k), IsContentScrollable] @
       (if isContentScrollable ad
             (trace (effect (RemoveClass (SCROLLABLE k)) (detectStackedButtons' k ad s')))
        then [AddClass (SCROLLABLE k)] else [])"
    by (simp add: added_def calls_def frame_callback_trace)
  have 4: "classes (calls (trace (run_frame_callback k (stub_adapter True False action)
            LayoutFrameCallback s'))) \<inter> {STACKED k, SCROLLABLE k} = {STACKED k}"
    if "STACKED k \<noteq> SCROLLABLE k"
    using that by (auto simp: frame_callback_trace calls_def classes_append stub_adapter_def)
  show ?thesis
    using 1 3 4 run_frame_layout [of k ad s] by simp
qed

theorem layout_deferred_measurements_witness:
  "STACKED example_constants \<noteq> SCROLLABLE example_constants
   \<and> classes (calls (trace (run_frame_callback example_constants
        (stub_adapter True False Undefined) LayoutFrameCallback (constructor :: unit state))))
       \<inter> {STACKED example_constants, SCROLLABLE example_constants}
     = {STACKED example_constants}"
proof -
  have ne: "STACKED example_constants \<noteq> SCROLLABLE example_constants"
    by (simp add: example_constants_def)
  have "STACKED example_constants \<noteq> SCROLLABLE example_constants \<longrightarrow>
      classes (calls (trace (run_frame_callback example_constants
        (stub_adapter True False Undefined) LayoutFrameCallback (constructor :: unit state))))
       \<inter> {STACKED example_constants, SCROLLABLE example_constants}
     = {STACKED example_constants}"
    using layout_deferred_measurements [of "constructor :: unit state" example_constants
      "stub_adapter True False Undefined" "constructor :: unit state" Undefined]
    by (elim conjE)
  with ne show ?thesis by (intro conjI) (assumption, elim mp)
qed

subsection \<open>Timers across transitions\<close>

lemma run_append: "run k ad (xs @ ys) s = run k ad ys (run k ad xs s)"
  by (simp add: run_def)

lemma run_Cons: "run k ad (st # ys) s = run k ad ys (do_step k ad s st)"
  by (simp add: run_def)

lemma extends_top: "trace s' = trace s @ es \<Longrightarrow> extends_by (\<lambda>c. True) s s'"
  by (rule extends_byI [where es = es]) (simp_all add: list_all_iff)

lemma added_eq: "trace s' = trace s @ es \<Longrightarrow> added s s' = es"
  by (simp add: added_def)






text \<open>
  Claim C4. Take any reachable state, call \<^verbatim>\<open>open()\<close>, let anything happen except a timer
  firing, call \<^verbatim>\<open>close(action)\<close>, and let time pass. Then \<^verbatim>\<open>notifyOpened\<close> is never called
  after that \<^verbatim>\<open>open()\<close>. The only completion delivered since is one \<^verbatim>\<open>notifyClosed(action)\<close>,
  delivered once the close duration has passed and not before; after it no timer is left.
\<close>

theorem close_supersedes_open:
  assumes "RunTimer \<notin> set mid"
  shows "(let s0 = run k ad pre constructor;
              s3 = close k action (run k ad mid (open_dialog k s0))
          in filter completion (calls (added s0 (advance k d s3))) =
               (if DIALOG_ANIMATION_CLOSE_TIME_MS k \<le> d then [NotifyClosed action] else [])
           \<and> NotifyOpened \<notin> set (calls (added s0 (advance k d s3)))
           \<and> calls (added s3 (advance k d s3)) =
               (if DIALOG_ANIMATION_CLOSE_TIME_MS k \<le> d
                then [RemoveClass (OPENING k), RemoveClass (CLOSING k), NotifyClosed action]
                else [])
           \<and> timers (advance k d s3) =
               (if DIALOG_ANIMATION_CLOSE_TIME_MS k \<le> d then [] else timers s3))"
proof -
  let ?s0 = "run k ad pre constructor"
  let ?s1 = "open_dialog k ?s0"
  let ?s2 = "run k ad mid ?s1"
  let ?s3 = "close k action ?s2"
  let ?s4 = "advance k d ?s3"
  let ?end = "if DIALOG_ANIMATION_CLOSE_TIME_MS k \<le> d
       then map (Pair False) [RemoveClass (OPENING k), RemoveClass (CLOSING k), NotifyClosed action]
       else []"
  have "?s2 = run k ad (pre @ Open # mid) constructor"
    by (simp add: run_append run_Cons)
  then have tr: "timer_tracked ?s2"
    by (simp only: tracked_reachable)
  have t4: "trace ?s4 = trace ?s3 @ ?end"
    by (rule advance_close(1) [OF tr])
  have a34: "added ?s3 ?s4 = ?end"
    by (rule added_eq [OF t4])
  have "extends_by (\<lambda>c. \<not> completion c) ?s0 ?s1"
    by (simp add: extends_open)
  moreover have "extends_by (\<lambda>c. \<not> completion c) ?s1 ?s2"
    using assms by (rule run_no_completion)
  moreover have "extends_by (\<lambda>c. \<not> completion c) ?s2 ?s3"
    by (simp add: extends_close)
  ultimately have e03: "extends_by (\<lambda>c. \<not> completion c) ?s0 ?s3"
    by (blast intro: extends_by_trans)
  have a04: "added ?s0 ?s4 = added ?s0 ?s3 @ ?end"
    using added_trans [OF e03 extends_top [OF t4]] a34 by simp
  have none: "filter completion (calls (added ?s0 ?s3)) = []"
    by (rule extends_filter [OF e03])
  have 1: "filter completion (calls (added ?s0 ?s4)) =
      (if DIALOG_ANIMATION_CLOSE_TIME_MS k \<le> d then [NotifyClosed action] else [])"
    using none by (simp add: a04 calls_def)
  have "NotifyOpened \<notin> set (filter completion (calls (added ?s0 ?s4)))"
    by (simp only: 1) simp
  then have 2: "NotifyOpened \<notin> set (calls (added ?s0 ?s4))"
    by simp
  have 3: "calls (added ?s3 ?s4) =
      (if DIALOG_ANIMATION_CLOSE_TIME_MS k \<le> d
       then [RemoveClass (OPENING k), RemoveClass (CLOSING k), NotifyClosed action] else [])"
    by (simp add: a34 calls_def)
  show ?thesis
    unfolding Let_def using 1 2 3 advance_close(2) [OF tr, of k d action] by (intro conjI)
qed

theorem close_supersedes_open_witness:
  "RunTimer \<notin> set [Tick 100, Layout, Frame :: unit step]
   \<and> DIALOG_ANIMATION_CLOSE_TIME_MS example_constants \<le> 75
   \<and> filter completion (calls (added
        (run example_constants (stub_adapter True False Undefined) [] (constructor :: unit state))
        (advance example_constants 75
          (close example_constants (Str ''accept'')
            (run example_constants (stub_adapter True False Undefined) [Tick 100, Layout, Frame]
              (open_dialog example_constants
                (run example_constants (stub_adapter True False Undefined) []
                  (constructor :: unit state)))))))) =
       [NotifyClosed (Str ''accept'')]
   \<and> NotifyOpened \<notin> set (calls (added
        (run example_constants (stub_adapter True False Undefined) [] (constructor :: unit state))
        (advance example_constants 75
          (close example_constants (Str ''accept'')
            (run example_constants (stub_adapter True False Undefined) [Tick 100, Layout, Frame]
              (open_dialog example_constants
                (run example_constants (stub_adapter True False Undefined) []
                  (constructor :: unit state))))))))"
proof -
  have quiet: "RunTimer \<notin> set [Tick 100, Layout, Frame :: unit step]"
    by simp
  have long: "DIALOG_ANIMATION_CLOSE_TIME_MS example_constants \<le> 75"
    by (simp add: example_constants_def)
  note t = close_supersedes_open [OF quiet, of example_constants
      "stub_adapter True False Undefined" "[]" "Str ''accept''" 75, unfolded Let_def]
  from t long quiet show ?thesis
    by (elim conjE) (simp only: if_True simp_thms)
qed



end
